theory Spec2Isabelle
  imports Main "HOL-Library.Sublist"
begin

section \<open>check-labels.py: data model\<close>

subsection \<open>Strings\<close>

text \<open>
  A Python \<open>str\<close> is a sequence of Unicode code points, so it is modelled as a list of
  natural numbers; \<open>len\<close>, slicing and the regular expression all count code points.
  \<open>lit\<close> turns an ASCII literal of the source into such a string.
\<close>

type_synonym pstr = "nat list"

abbreviation lit :: "string \<Rightarrow> pstr" where
  "lit s \<equiv> map of_char s"

text \<open>\<open>needle in haystack\<close> on strings.\<close>

fun contains :: "pstr \<Rightarrow> pstr \<Rightarrow> bool" where
  "contains needle [] = (needle = [])"
| "contains needle (c # cs) = (prefix needle (c # cs) \<or> contains needle cs)"

subsection \<open>JSON values and Python exceptions\<close>

text \<open>
  What \<open>resp.json()\<close> returns: \<open>None\<close>, \<open>bool\<close>, \<open>int\<close>, \<open>str\<close>, \<open>list\<close> or \<open>dict\<close>.
  A \<open>dict\<close> is the list of its items (keys pairwise distinct). Numbers are restricted to
  integers.
\<close>

datatype json =
    JNull
  | JBool bool
  | JNum int
  | JStr pstr
  | JArr "json list"
  | JObj "(pstr \<times> json) list"

text \<open>
  The exceptions that can travel through the program. \<open>ValueError\<close> carries its message
  (the source raises it with four different ones); \<open>HTTPError\<close> carries the status code
  read by \<open>e.response.status_code\<close>; \<open>RequestException\<close> is any failure of the transport
  itself; \<open>SystemExit\<close> is raised by \<open>sys.exit\<close> and is the only one that is not an
  \<open>Exception\<close>.
\<close>

datatype exn =
    ValueError pstr
  | HTTPError nat
  | RequestException
  | JSONDecodeError
  | KeyError json
  | TypeError
  | AttributeError
  | IndexError
  | EOFError
  | SystemExit nat

subsection \<open>The world outside the program\<close>

record response =
  status_code :: nat
  json_body :: "json option"  \<comment> \<open>\<open>None\<close>: the body is not JSON, \<open>resp.json()\<close> raises\<close>

datatype request =
    GET pstr "(pstr \<times> pstr) list" "(pstr \<times> pstr) list"  \<comment> \<open>url, params, headers\<close>
  | POST pstr "(pstr \<times> pstr) list"  \<comment> \<open>url, the \<open>json=\<close> body\<close>

text \<open>
  Everything the program reads from outside. \<open>http k rq\<close> is the outcome of request \<open>rq\<close>
  when it is the \<open>k\<close>-th HTTP exchange of the run (\<open>None\<close>: the transport failed), so
  the service may answer the same request differently the second time. Two library
  functions are taken as given: \<open>query_params s\<close> is \<open>parse_qs(urlparse(s).query)\<close>
  (\<open>Inl msg\<close> when \<open>urlparse\<close> raises \<open>ValueError(msg)\<close>), and \<open>py_str v\<close> is what an
  f-string substitutes for a value \<open>v\<close> that is not a \<open>str\<close>.
\<close>

record world =
  argv :: "pstr list"
  environ :: "pstr \<Rightarrow> pstr option"
  input_reply :: "pstr option"  \<comment> \<open>\<open>None\<close>: \<open>input()\<close> raises \<open>EOFError\<close>\<close>
  getpass_reply :: "pstr option"
  http :: "nat \<Rightarrow> request \<Rightarrow> response option"
  query_params :: "pstr \<Rightarrow> pstr + (pstr \<Rightarrow> pstr list option)"
  py_str :: "json \<Rightarrow> pstr"

text \<open>
  The trace of a run: every line printed and every exchange with the outside, in order,
  each read together with what it returned. Writing to standard output is taken to
  succeed. Two lines are kept symbolic, since their text is made by the library: the
  error line of the top-level handler and the JSON dump of the labels.
\<close>

datatype event =
    Print pstr
  | PrintError exn  \<comment> \<open>\<open>print(f"\<dots> Error: {e}")\<close>\<close>
  | PrintJson json  \<comment> \<open>\<open>print(json.dumps(labels, indent=2))\<close>\<close>
  | EnvGet pstr "pstr option"
  | Input pstr "pstr option"
  | Getpass pstr "pstr option"
  | Http request "response option"

type_synonym 'a outcome = "(exn + 'a) \<times> event list"

subsection \<open>Python operations on JSON values\<close>

text \<open>Truth value testing (\<open>if x:\<close>, \<open>not x\<close>).\<close>

fun truthy :: "json \<Rightarrow> bool" where
  "truthy JNull = False"
| "truthy (JBool b) = b"
| "truthy (JNum n) = (n \<noteq> 0)"
| "truthy (JStr s) = (s \<noteq> [])"
| "truthy (JArr xs) = (xs \<noteq> [])"
| "truthy (JObj kvs) = (kvs \<noteq> [])"

text \<open>\<open>x.get(key, default)\<close>: only a \<open>dict\<close> has the method.\<close>

fun py_get :: "json \<Rightarrow> pstr \<Rightarrow> json \<Rightarrow> exn + json" where
  "py_get (JObj kvs) key dflt = Inr (case map_of kvs key of None \<Rightarrow> dflt | Some v \<Rightarrow> v)"
| "py_get _ key dflt = Inl AttributeError"

text \<open>\<open>x[key]\<close> with a string key.\<close>

fun py_item :: "json \<Rightarrow> pstr \<Rightarrow> exn + json" where
  "py_item (JObj kvs) key =
     (case map_of kvs key of None \<Rightarrow> Inl (KeyError (JStr key)) | Some v \<Rightarrow> Inr v)"
| "py_item _ key = Inl TypeError"

text \<open>\<open>x[0]\<close>.\<close>

fun py_first :: "json \<Rightarrow> exn + json" where
  "py_first (JArr []) = Inl IndexError"
| "py_first (JArr (x # xs)) = Inr x"
| "py_first (JStr []) = Inl IndexError"
| "py_first (JStr (c # cs)) = Inr (JStr [c])"
| "py_first (JObj kvs) = Inl (KeyError (JNum 0))"
| "py_first _ = Inl TypeError"

text \<open>
  \<open>x[:100]\<close>. Only a \<open>str\<close> or a \<open>list\<close> can be sliced; a \<open>dict\<close> raises as well
  (\<open>TypeError\<close> up to Python 3.11, which is what is recorded here).
\<close>

fun py_slice100 :: "json \<Rightarrow> exn + json" where
  "py_slice100 (JStr s) = Inr (JStr (take 100 s))"
| "py_slice100 (JArr xs) = Inr (JArr (take 100 xs))"
| "py_slice100 _ = Inl TypeError"

text \<open>The elements \<open>for label in x\<close> runs over; \<open>len(x)\<close> is their number.\<close>

fun py_elems :: "json \<Rightarrow> exn + json list" where
  "py_elems (JArr xs) = Inr xs"
| "py_elems (JStr s) = Inr (map (\<lambda>c. JStr [c]) s)"
| "py_elems (JObj kvs) = Inr (map (\<lambda>kv. JStr (fst kv)) kvs)"
| "py_elems _ = Inl TypeError"

text \<open>What an f-string substitutes for \<open>{v}\<close>.\<close>

definition fstr :: "world \<Rightarrow> json \<Rightarrow> pstr" where
  "fstr w v = (case v of JStr s \<Rightarrow> s | _ \<Rightarrow> py_str w v)"

subsection \<open>HTTP through \<open>requests\<close>\<close>

definition http_count :: "event list \<Rightarrow> nat" where
  "http_count log = length (filter (\<lambda>e. case e of Http _ _ \<Rightarrow> True | _ \<Rightarrow> False) log)"

text \<open>\<open>requests.get\<close> and \<open>requests.post\<close>: one exchange, recorded in the trace.\<close>

definition send :: "world \<Rightarrow> request \<Rightarrow> event list \<Rightarrow> response outcome" where
  "send w rq log =
     (let r = http w (http_count log) rq
      in ((case r of None \<Rightarrow> Inl RequestException | Some resp \<Rightarrow> Inr resp),
          log @ [Http rq r]))"

text \<open>
  \<open>resp.raise_for_status()\<close> followed by \<open>resp.json()\<close>, as all three callers do:
  a status from 400 to 599 raises \<open>HTTPError\<close>.
\<close>

definition checked_json :: "response \<Rightarrow> exn + json" where
  "checked_json resp =
     (if 400 \<le> status_code resp \<and> status_code resp < 600
      then Inl (HTTPError (status_code resp))
      else (case json_body resp of None \<Rightarrow> Inl JSONDecodeError | Some j \<Rightarrow> Inr j))"

definition resolve_url :: pstr where
  "resolve_url = lit ''https://bsky.social/xrpc/com.atproto.identity.resolveHandle''"

definition session_url :: pstr where
  "session_url = lit ''https://bsky.social/xrpc/com.atproto.server.createSession''"

definition posts_url :: pstr where
  "posts_url = lit ''https://bsky.social/xrpc/app.bsky.feed.getPosts''"

section \<open>parse\_input\<close>

text \<open>
  \<open>re.search(r'profile/([^/]+)/post/([^/?\s]+)', s)\<close>. \<open>\s\<close> in a \<open>str\<close> pattern is Unicode
  white space. At a fixed start both groups are forced: a group of non-slashes that is
  followed by a slash is the whole run of non-slashes, and the last group is greedy.
\<close>

definition is_space :: "nat \<Rightarrow> bool" where
  "is_space c \<longleftrightarrow>
     (9 \<le> c \<and> c \<le> 13) \<or> (28 \<le> c \<and> c \<le> 32) \<or> c = 133 \<or> c = 160 \<or> c = 5760 \<or>
     (8192 \<le> c \<and> c \<le> 8202) \<or> c = 8232 \<or> c = 8233 \<or> c = 8239 \<or> c = 8287 \<or> c = 12288"

definition match_here :: "pstr \<Rightarrow> (pstr \<times> pstr) option" where
  "match_here s =
     (if prefix (lit ''profile/'') s then
        (let s1 = drop 8 s;
             handle = takeWhile (\<lambda>c. c \<noteq> 47) s1;
             s2 = dropWhile (\<lambda>c. c \<noteq> 47) s1
         in if handle \<noteq> [] \<and> prefix (lit ''/post/'') s2 then
              (let rkey = takeWhile (\<lambda>c. c \<noteq> 47 \<and> c \<noteq> 63 \<and> \<not> is_space c) (drop 6 s2)
               in if rkey \<noteq> [] then Some (handle, rkey) else None)
            else None)
      else None)"

fun re_search :: "pstr \<Rightarrow> (pstr \<times> pstr) option" where
  "re_search [] = None"
| "re_search (c # cs) =
     (case match_here (c # cs) of Some g \<Rightarrow> Some g | None \<Rightarrow> re_search cs)"

text \<open>\<open>params.get(key, [None])[0]\<close>: \<open>None\<close> when the key is missing.\<close>

definition first_param :: "(pstr \<Rightarrow> pstr list option) \<Rightarrow> pstr \<Rightarrow> exn + pstr option" where
  "first_param params key =
     (case params key of
        None \<Rightarrow> Inr None
      | Some [] \<Rightarrow> Inl IndexError
      | Some (v # vs) \<Rightarrow> Inr (Some v))"

text \<open>\<open>f"at://{repo}/{collection}/{rkey}"\<close>.\<close>

definition at_uri :: "pstr \<Rightarrow> pstr \<Rightarrow> pstr \<Rightarrow> pstr" where
  "at_uri repo collection rkey = lit ''at://'' @ repo @ lit ''/'' @ collection @ lit ''/'' @ rkey"

text \<open>Lines 25 to 35: the API URL format.\<close>

definition parse_api_url :: "world \<Rightarrow> pstr \<Rightarrow> exn + pstr" where
  "parse_api_url w input_str =
     (case query_params w input_str of
        Inl msg \<Rightarrow> Inl (ValueError msg)
      | Inr params \<Rightarrow>
          (case first_param params (lit ''repo'') of
             Inl e \<Rightarrow> Inl e
           | Inr repo \<Rightarrow>
          (case first_param params (lit ''collection'') of
             Inl e \<Rightarrow> Inl e
           | Inr collection \<Rightarrow>
          (case first_param params (lit ''rkey'') of
             Inl e \<Rightarrow> Inl e
           | Inr rkey \<Rightarrow>
               (case (repo, collection, rkey) of
                  (Some r, Some c, Some k) \<Rightarrow>
                    if r \<noteq> [] \<and> c \<noteq> [] \<and> k \<noteq> [] then Inr (at_uri r c k)
                    else Inl (ValueError (lit ''Could not parse API URL''))
                | _ \<Rightarrow> Inl (ValueError (lit ''Could not parse API URL'')))))))"

text \<open>Lines 41 to 55: the handle of a web URL is resolved over the network.\<close>

definition resolve_request :: "pstr \<Rightarrow> request" where
  "resolve_request handle = GET resolve_url [(lit ''handle'', handle)] []"

definition resolve_handle :: "world \<Rightarrow> pstr \<Rightarrow> pstr \<Rightarrow> event list \<Rightarrow> pstr outcome" where
  "resolve_handle w handle rkey log =
     (case send w (resolve_request handle)
             (log @ [Print ([128269] @ lit '' Resolving handle '' @ handle @ lit ''...'')]) of
        (Inl e, log') \<Rightarrow> (Inl e, log')
      | (Inr resp, log') \<Rightarrow>
          (case checked_json resp of
             Inl e \<Rightarrow> (Inl e, log')
           | Inr j \<Rightarrow>
               (case py_get j (lit ''did'') JNull of
                  Inl e \<Rightarrow> (Inl e, log')
                | Inr did \<Rightarrow>
                    if \<not> truthy did
                    then (Inl (ValueError (lit ''Could not resolve handle to DID'')), log')
                    else (Inr (lit ''at://'' @ fstr w did @ lit ''/app.bsky.feed.post/'' @ rkey),
                          log'))))"

definition parse_input :: "world \<Rightarrow> pstr \<Rightarrow> event list \<Rightarrow> pstr outcome" where
  "parse_input w input_str log =
     (if prefix (lit ''at://'') input_str then (Inr input_str, log)
      else if contains (lit ''xrpc/com.atproto.repo.getRecord'') input_str
        then (parse_api_url w input_str, log)
      else if contains (lit ''bsky.app'') input_str then
        (case re_search input_str of
           Some (handle, rkey) \<Rightarrow> resolve_handle w handle rkey log
         | None \<Rightarrow> (Inl (ValueError (lit ''Could not parse Bluesky URL'')), log))
      else (Inl (ValueError (lit ''Unrecognized input format'')), log))"

section \<open>create\_session and get\_post\<close>

definition session_request :: "pstr \<Rightarrow> pstr \<Rightarrow> request" where
  "session_request handle password =
     POST session_url [(lit ''identifier'', handle), (lit ''password'', password)]"

text \<open>Lines 71 and 72: \<open>resp.raise_for_status()\<close>, then \<open>resp.json()['accessJwt']\<close>.\<close>

definition access_jwt :: "response \<Rightarrow> exn + json" where
  "access_jwt resp =
     (case checked_json resp of Inl e \<Rightarrow> Inl e | Inr j \<Rightarrow> py_item j (lit ''accessJwt''))"

definition create_session :: "world \<Rightarrow> pstr \<Rightarrow> pstr \<Rightarrow> event list \<Rightarrow> json outcome" where
  "create_session w handle password log =
     (case send w (session_request handle password) log of
        (Inl e, log') \<Rightarrow> (Inl e, log')
      | (Inr resp, log') \<Rightarrow> (access_jwt resp, log'))"

text \<open>
  The request of \<open>get_post\<close>; \<open>access_token\<close> is \<open>JNull\<close> for the default \<open>None\<close>.
  The header is added under \<open>if access_token:\<close>.
\<close>

definition posts_request :: "world \<Rightarrow> pstr \<Rightarrow> json \<Rightarrow> request" where
  "posts_request w uri access_token =
     GET posts_url [(lit ''uris'', uri)]
       (if truthy access_token
        then [(lit ''Authorization'', lit ''Bearer '' @ fstr w access_token)] else [])"

definition get_post :: "world \<Rightarrow> pstr \<Rightarrow> json \<Rightarrow> event list \<Rightarrow> json outcome" where
  "get_post w uri access_token log =
     (case send w (posts_request w uri access_token) log of
        (Inl e, log') \<Rightarrow> (Inl e, log')
      | (Inr resp, log') \<Rightarrow> (checked_json resp, log'))"

section \<open>main\<close>

subsection \<open>Credentials (lines 120 to 127)\<close>

definition input_line :: "world \<Rightarrow> pstr \<Rightarrow> event list \<Rightarrow> pstr outcome" where
  "input_line w prompt log =
     ((case input_reply w of None \<Rightarrow> Inl EOFError | Some s \<Rightarrow> Inr s),
      log @ [Input prompt (input_reply w)])"

definition getpass :: "world \<Rightarrow> pstr \<Rightarrow> event list \<Rightarrow> pstr outcome" where
  "getpass w prompt log =
     ((case getpass_reply w of None \<Rightarrow> Inl EOFError | Some s \<Rightarrow> Inr s),
      log @ [Getpass prompt (getpass_reply w)])"

text \<open>\<open>v = os.environ.get(name)\<close>, then \<open>if not v: v = ask(\<dots>)\<close>.\<close>

definition env_or_ask ::
  "world \<Rightarrow> pstr \<Rightarrow> (event list \<Rightarrow> pstr outcome) \<Rightarrow> event list \<Rightarrow> pstr outcome" where
  "env_or_ask w name ask log =
     (let log' = log @ [EnvGet name (environ w name)]
      in case environ w name of
           None \<Rightarrow> ask log'
         | Some v \<Rightarrow> if v = [] then ask log' else (Inr v, log'))"

definition get_credentials :: "world \<Rightarrow> event list \<Rightarrow> (pstr \<times> pstr) outcome" where
  "get_credentials w log =
     (case env_or_ask w (lit ''BLUESKY_HANDLE'') (input_line w (lit ''Bluesky handle: '')) log of
        (Inl e, log1) \<Rightarrow> (Inl e, log1)
      | (Inr handle, log1) \<Rightarrow>
          (case env_or_ask w (lit ''BLUESKY_APP_PASSWORD'')
                  (getpass w (lit ''App password: '')) log1 of
             (Inl e, log2) \<Rightarrow> (Inl e, log2)
           | (Inr password, log2) \<Rightarrow> (Inr (handle, password), log2)))"

subsection \<open>Fetching with one retry (lines 110 to 137)\<close>

definition fetch :: "world \<Rightarrow> pstr \<Rightarrow> event list \<Rightarrow> json outcome" where
  "fetch w uri log =
     (case get_post w uri JNull
             (log @ [Print ([128275] @ lit '' Attempting unauthenticated request...'')]) of
        (Inr data, log1) \<Rightarrow> (Inr data, log1)
      | (Inl e, log1) \<Rightarrow>
          if e = HTTPError 401 then
            (case get_credentials w
                    (log1 @ [Print ([128272] @ lit '' Authentication required. Logging in...'')]) of
               (Inl e', log2) \<Rightarrow> (Inl e', log2)
             | (Inr (handle, password), log2) \<Rightarrow>
                 (case create_session w handle password log2 of
                    (Inl e', log3) \<Rightarrow> (Inl e', log3)
                  | (Inr access_token, log3) \<Rightarrow>
                      get_post w uri access_token
                        (log3 @ [Print ([9989] @ lit '' Authentication successful!''), Print []])))
          else (Inl e, log1))"

subsection \<open>Showing the post (lines 139 to 171)\<close>

text \<open>\<open>post['author']['handle']\<close> and \<open>post['record'].get('text', '')[:100]\<close>.\<close>

definition author_of :: "json \<Rightarrow> exn + json" where
  "author_of post =
     (case py_item post (lit ''author'') of
        Inl e \<Rightarrow> Inl e
      | Inr a \<Rightarrow> py_item a (lit ''handle''))"

definition text_of :: "json \<Rightarrow> exn + json" where
  "text_of post =
     (case py_item post (lit ''record'') of
        Inl e \<Rightarrow> Inl e
      | Inr r \<Rightarrow>
          (case py_get r (lit ''text'') (JStr []) of
             Inl e \<Rightarrow> Inl e
           | Inr t \<Rightarrow> py_slice100 t))"

text \<open>The loop of lines 162 to 165: one line for each label, until one has no \<open>get\<close>.\<close>

fun label_lines :: "world \<Rightarrow> json list \<Rightarrow> event list \<Rightarrow> unit outcome" where
  "label_lines w [] log = (Inr (), log)"
| "label_lines w (label # rest) log =
     (case py_get label (lit ''val'') (JStr (lit ''unknown'')) of
        Inl e \<Rightarrow> (Inl e, log)
      | Inr val \<Rightarrow>
          (case py_get label (lit ''src'') (JStr (lit ''unknown'')) of
             Inl e \<Rightarrow> (Inl e, log)
           | Inr src \<Rightarrow>
               label_lines w rest
                 (log @ [Print (lit ''  '' @ [8226] @ lit '' '' @ fstr w val @ lit '' (from: '' @
                                fstr w src @ lit '')'')])))"

text \<open>Lines 159 to 167.\<close>

definition show_labels :: "world \<Rightarrow> json \<Rightarrow> event list \<Rightarrow> unit outcome" where
  "show_labels w labels log =
     (if truthy labels then
        (case py_elems labels of
           Inl e \<Rightarrow> (Inl e, log)
         | Inr ls \<Rightarrow>
             label_lines w ls
               (log @ [Print ([9888, 65039] @ lit ''  Found '' @
                              fstr w (JNum (int (length ls))) @ lit '' label(s):''),
                       Print []]))
      else (Inr (), log @ [Print ([9989] @ lit '' No labels found'')]))"

text \<open>Lines 145 to 171, for \<open>post = posts[0]\<close>.\<close>

definition show_post :: "world \<Rightarrow> json \<Rightarrow> event list \<Rightarrow> unit outcome" where
  "show_post w post log =
     (case py_get post (lit ''labels'') (JArr []) of
        Inl e \<Rightarrow> (Inl e, log)
      | Inr labels \<Rightarrow>
          (let log1 = log @ [Print ([9989] @ lit '' Post found''), Print []]
           in case author_of post of
                Inl e \<Rightarrow> (Inl e, log1)
              | Inr author \<Rightarrow>
                  (case text_of post of
                     Inl e \<Rightarrow> (Inl e, log1)
                   | Inr text \<Rightarrow>
                       (case show_labels w labels
                               (log1 @ [Print ([128100] @ lit '' Author: '' @ fstr w author),
                                        Print ([128221] @ lit '' Text: '' @ fstr w text @ lit ''...''),
                                        Print []]) of
                          (Inl e, log2) \<Rightarrow> (Inl e, log2)
                        | (Inr u, log2) \<Rightarrow>
                            (Inr (),
                             log2 @ [Print [], Print ([128202] @ lit '' Full label data:''),
                                     PrintJson labels])))))"

text \<open>Lines 139 to 171: everything \<open>main\<close> does with the fetched payload.\<close>

definition report :: "world \<Rightarrow> json \<Rightarrow> event list \<Rightarrow> unit outcome" where
  "report w data log =
     (case py_get data (lit ''posts'') (JArr []) of
        Inl e \<Rightarrow> (Inl e, log)
      | Inr posts \<Rightarrow>
          if \<not> truthy posts
          then (Inl (SystemExit 1), log @ [Print ([10060] @ lit '' Post not found'')])
          else (case py_first posts of
                  Inl e \<Rightarrow> (Inl e, log)
                | Inr post \<Rightarrow> show_post w post log))"

subsection \<open>The whole program\<close>

text \<open>The body of the \<open>try\<close> block, lines 106 to 171.\<close>

definition run :: "world \<Rightarrow> pstr \<Rightarrow> unit outcome" where
  "run w input_str =
     (case parse_input w input_str [] of
        (Inl e, log) \<Rightarrow> (Inl e, log)
      | (Inr uri, log) \<Rightarrow>
          (case fetch w uri
                  (log @ [Print ([128205] @ lit '' Checking labels for: '' @ uri), Print []]) of
             (Inl e, log') \<Rightarrow> (Inl e, log')
           | (Inr data, log') \<Rightarrow> report w data log'))"

text \<open>
  How the process ends: \<open>except Exception\<close> (lines 173 to 175) prints the error and exits
  with 1; \<open>SystemExit\<close> is not an \<open>Exception\<close> and ends the process with its own code;
  falling off the end of \<open>main\<close> is exit status 0.
\<close>

fun finish :: "unit outcome \<Rightarrow> nat \<times> event list" where
  "finish (Inr u, log) = (0, log)"
| "finish (Inl (SystemExit n), log) = (n, log)"
| "finish (Inl e, log) = (1, log @ [PrintError e])"

definition usage :: "event list" where
  "usage =
     [Print (lit ''Usage: python check-labels.py <post-uri-or-url>''),
      Print [],
      Print (lit ''Examples:''),
      Print (lit ''  python check-labels.py at://did:plc:abc123/app.bsky.feed.post/3lylub2qvq22i''),
      Print (lit ''  python check-labels.py https://bsky.app/profile/handle.bsky.social/post/3lylub2qvq22i''),
      Print [],
      Print (lit ''Environment variables (optional):''),
      Print (lit ''  BLUESKY_HANDLE - Your Bluesky handle''),
      Print (lit ''  BLUESKY_APP_PASSWORD - Your app password'')]"

text \<open>\<open>main\<close> returns the exit status of the process and the trace of the run.\<close>

definition main :: "world \<Rightarrow> nat \<times> event list" where
  "main w =
     (if length (argv w) < 2 then (1, usage)
      else finish (run w (argv w ! 1)))"

section \<open>Reading a trace\<close>

text \<open>The exchanges of a trace by endpoint, and the reads of credentials.\<close>

fun is_lookup :: "event \<Rightarrow> bool" where
  "is_lookup (Http (GET url ps hs) r) = (url = posts_url)"
| "is_lookup _ = False"

fun is_login :: "event \<Rightarrow> bool" where
  "is_login (Http (POST url body) r) = (url = session_url)"
| "is_login _ = False"

fun is_resolution :: "event \<Rightarrow> bool" where
  "is_resolution (Http (GET url ps hs) r) = (url = resolve_url)"
| "is_resolution _ = False"

fun is_credential_read :: "event \<Rightarrow> bool" where
  "is_credential_read (EnvGet name v) = True"
| "is_credential_read (Input prompt v) = True"
| "is_credential_read (Getpass prompt v) = True"
| "is_credential_read _ = False"

fun prompt_failed :: "event \<Rightarrow> bool" where
  "prompt_failed (Input prompt None) = True"
| "prompt_failed (Getpass prompt None) = True"
| "prompt_failed _ = False"

fun is_error_report :: "event \<Rightarrow> bool" where
  "is_error_report (PrintError e) = True"
| "is_error_report _ = False"

fun is_print :: "event \<Rightarrow> bool" where
  "is_print (Print s) = True"
| "is_print (PrintJson j) = True"
| "is_print _ = False"

text \<open>The outcome of an exchange is a response with status 401.\<close>

fun unauthorized :: "response option \<Rightarrow> bool" where
  "unauthorized (Some resp) = (status_code resp = 401)"
| "unauthorized None = False"

text \<open>
  What \<open>get_post\<close> and \<open>create_session\<close> return or raise, as functions of the outcome of
  their one exchange.
\<close>

definition lookup_result :: "response option \<Rightarrow> exn + json" where
  "lookup_result r = (case r of None \<Rightarrow> Inl RequestException | Some resp \<Rightarrow> checked_json resp)"

definition login_result :: "response option \<Rightarrow> exn + json" where
  "login_result r = (case r of None \<Rightarrow> Inl RequestException | Some resp \<Rightarrow> access_jwt resp)"


definition is_account_identifier :: "pstr \<Rightarrow> bool" where
  "is_account_identifier s \<longleftrightarrow> prefix (lit ''did:'') s"

section \<open>Example worlds\<close>

text \<open>No arguments, no environment, no terminal, no network.\<close>

definition offline :: world where
  "offline =
     \<lparr>argv = [], environ = (\<lambda>name. None), input_reply = None, getpass_reply = None,
      http = (\<lambda>k rq. None), query_params = (\<lambda>s. Inr (\<lambda>key. None)),
      py_str = (\<lambda>v. lit ''?'')\<rparr>"

definition ok :: "json \<Rightarrow> response option" where
  "ok j = Some \<lparr>status_code = 200, json_body = Some j\<rparr>"

definition denied :: "response option" where
  "denied = Some \<lparr>status_code = 401, json_body = None\<rparr>"

definition api_url :: pstr where
  "api_url = lit ''https://bsky.app/xrpc/com.atproto.repo.getRecord?repo=did:plc:abc&collection=app.bsky.feed.post&rkey=xyz''"

definition api_world :: world where
  "api_world =
     offline\<lparr>query_params := (\<lambda>s. Inr (map_of
        [(lit ''repo'', [lit ''did:plc:abc'']),
         (lit ''collection'', [lit ''app.bsky.feed.post'']),
         (lit ''rkey'', [lit ''xyz''])]))\<rparr>"

definition did_url :: pstr where
  "did_url = lit ''https://bsky.app/profile/did:plc:abc123/post/xyz''"

definition handle_url :: pstr where
  "handle_url = lit ''https://bsky.app/profile/alice.example/post/xyz''"

definition resolving_world :: world where
  "resolving_world =
     offline\<lparr>http := (\<lambda>k rq. ok (JObj [(lit ''did'', JStr (lit ''did:plc:999''))]))\<rparr>"

text \<open>
  Runs of the whole program on \<open>at://did:plc:abc123/app.bsky.feed.post/xyz\<close>. The post
  of the sample payloads has an author and a text and no \<open>labels\<close> field.
\<close>

definition post_uri :: pstr where
  "post_uri = lit ''at://did:plc:abc123/app.bsky.feed.post/xyz''"

definition sample_post :: json where
  "sample_post =
     JObj [(lit ''author'', JObj [(lit ''handle'', JStr (lit ''alice.example''))]),
           (lit ''record'', JObj [(lit ''text'', JStr (lit ''hello''))])]"

definition other_post :: json where
  "other_post =
     JObj [(lit ''author'', JObj [(lit ''handle'', JStr (lit ''bob.example''))]),
           (lit ''record'', JObj [(lit ''text'', JStr (lit ''bye''))]),
           (lit ''labels'', JArr [JObj [(lit ''val'', JStr (lit ''spam'')),
                                        (lit ''src'', JStr (lit ''mod1''))]])]"

definition payload :: "json list \<Rightarrow> json" where
  "payload ps = JObj [(lit ''posts'', JArr ps)]"

text \<open>The service answers the first lookup.\<close>

definition open_world :: world where
  "open_world =
     offline\<lparr>argv := [lit ''check-labels.py'', post_uri],
             http := (\<lambda>k rq. ok (payload [sample_post]))\<rparr>"

text \<open>The service answers the first lookup with two posts.\<close>

definition crowded_world :: world where
  "crowded_world =
     offline\<lparr>argv := [lit ''check-labels.py'', post_uri],
             http := (\<lambda>k rq. ok (payload [sample_post, other_post]))\<rparr>"

text \<open>
  The service wants a login: the handle is in the environment, the password is typed,
  the login returns a token and the second lookup succeeds.
\<close>

definition login_world :: world where
  "login_world =
     offline\<lparr>argv := [lit ''check-labels.py'', post_uri],
             environ := (\<lambda>name. if name = lit ''BLUESKY_HANDLE''
                                 then Some (lit ''alice.example'') else None),
             getpass_reply := Some (lit ''secret''),
             http := (\<lambda>k rq.
               if k = 0 then denied
               else if k = 1 then ok (JObj [(lit ''accessJwt'', JStr (lit ''jwt''))])
               else ok (payload [sample_post]))\<rparr>"

text \<open>The service answers 401 to everything, the login too.\<close>

definition rejecting_world :: world where
  "rejecting_world =
     offline\<lparr>argv := [lit ''check-labels.py'', post_uri],
             environ := (\<lambda>name. Some (lit ''secret'')),
             http := (\<lambda>k rq. denied)\<rparr>"

text \<open>The lookup succeeds and finds nothing.\<close>

definition empty_world :: world where
  "empty_world =
     offline\<lparr>argv := [lit ''check-labels.py'', post_uri],
             http := (\<lambda>k rq. ok (payload []))\<rparr>"

section \<open>Properties of parse\_input\<close>

lemma http_count_append [simp]: "http_count (xs @ ys) = http_count xs + http_count ys"
  by (simp add: http_count_def)

lemma http_count_simps [simp]:
  "http_count [] = 0"
  "http_count (Print s # es) = http_count es"
  "http_count (EnvGet name v # es) = http_count es"
  "http_count (Input prompt v # es) = http_count es"
  "http_count (Getpass prompt v # es) = http_count es"
  "http_count (Http rq r # es) = Suc (http_count es)"
  by (simp_all add: http_count_def)

text \<open>
  C7. An input that starts with \<open>at://\<close> is returned unchanged, without any exchange with
  the outside.
\<close>

theorem canonical_input_unchanged:
  "prefix (lit ''at://'') input_str \<Longrightarrow> parse_input w input_str log = (Inr input_str, log)"
  by (simp add: parse_input_def)

theorem canonical_input_unchanged_witness:
  "prefix (lit ''at://'') (lit ''at://did:plc:abc123/app.bsky.feed.post/xyz'') \<and>
   parse_input offline (lit ''at://did:plc:abc123/app.bsky.feed.post/xyz'') [] =
     (Inr (lit ''at://did:plc:abc123/app.bsky.feed.post/xyz''), [])"
  using canonical_input_unchanged
    [of "lit ''at://did:plc:abc123/app.bsky.feed.post/xyz''" offline "[]"]
  by simp

text \<open>
  C6, as stated, fails: the two substring tests are independent, and an API URL on the
  host \<open>bsky.app\<close> passes both.
\<close>

theorem both_substrings_counterexample:
  "\<not> prefix (lit ''at://'') api_url \<and>
   contains (lit ''xrpc/com.atproto.repo.getRecord'') api_url \<and>
   contains (lit ''bsky.app'') api_url"
  by (simp add: api_url_def)

text \<open>
  C6, amended. The test for the API URL format comes first and decides alone: an input
  that passes it (and does not start with \<open>at://\<close>) is handled as an API URL, whether or not
  it also contains \<open>bsky.app\<close>, and no exchange takes place. So at most one of the two
  formats is ever applied.
\<close>

theorem api_url_checked_first:
  assumes "\<not> prefix (lit ''at://'') input_str"
    and "contains (lit ''xrpc/com.atproto.repo.getRecord'') input_str"
  shows "parse_input w input_str log = (parse_api_url w input_str, log)"
  using assms by (simp add: parse_input_def)

theorem api_url_checked_first_witness:
  "contains (lit ''bsky.app'') api_url \<and>
   parse_input api_world api_url [] = (Inr (lit ''at://did:plc:abc/app.bsky.feed.post/xyz''), [])"
proof -
  have "\<not> prefix (lit ''at://'') api_url"
    and "contains (lit ''xrpc/com.atproto.repo.getRecord'') api_url"
    and *: "contains (lit ''bsky.app'') api_url"
    by (simp_all add: api_url_def)
  from api_url_checked_first [OF this(1,2), of api_world "[]"]
  have "parse_input api_world api_url [] = (parse_api_url api_world api_url, [])" .
  moreover have "parse_api_url api_world api_url = Inr (lit ''at://did:plc:abc/app.bsky.feed.post/xyz'')"
    by (simp add: parse_api_url_def api_world_def offline_def first_param_def at_uri_def)
  ultimately show ?thesis using * by simp
qed

text \<open>
  C5, as stated, fails: the segment \<open>did:plc:abc123\<close> of a web URL is already an account
  identifier, and the resolution endpoint is called with it all the same.
\<close>

theorem resolution_of_identifier_counterexample:
  "re_search did_url = Some (lit ''did:plc:abc123'', lit ''xyz'') \<and>
   is_account_identifier (lit ''did:plc:abc123'') \<and>
   filter is_resolution (snd (parse_input resolving_world did_url [])) =
     [Http (GET resolve_url [(lit ''handle'', lit ''did:plc:abc123'')] [])
           (ok (JObj [(lit ''did'', JStr (lit ''did:plc:999''))]))]"
  by (simp add: did_url_def match_here_def is_space_def is_account_identifier_def
      parse_input_def resolve_handle_def send_def resolve_request_def resolving_world_def
      offline_def ok_def checked_json_def fstr_def)

text \<open>
  C5, amended. For a web URL whose pattern matches, the resolution endpoint is called
  exactly once, with the extracted profile segment as the \<open>handle\<close> parameter, whatever
  the segment is; nothing tests whether it is already an account identifier.
\<close>

theorem resolution_call_always_made:
  assumes "\<not> prefix (lit ''at://'') input_str"
    and "\<not> contains (lit ''xrpc/com.atproto.repo.getRecord'') input_str"
    and "contains (lit ''bsky.app'') input_str"
    and "re_search input_str = Some (segment, rkey)"
  shows "snd (parse_input w input_str log) =
           log @ [Print ([128269] @ lit '' Resolving handle '' @ segment @ lit ''...''),
                  Http (GET resolve_url [(lit ''handle'', segment)] [])
                       (http w (http_count log) (GET resolve_url [(lit ''handle'', segment)] []))]"
  using assms
  by (simp add: parse_input_def resolve_handle_def send_def resolve_request_def Let_def
           split: sum.split option.split)

theorem resolution_call_always_made_witness:
  "snd (parse_input resolving_world handle_url []) =
     [Print ([128269] @ lit '' Resolving handle alice.example...''),
      Http (GET resolve_url [(lit ''handle'', lit ''alice.example'')] [])
           (ok (JObj [(lit ''did'', JStr (lit ''did:plc:999''))]))]"
proof -
  have "\<not> prefix (lit ''at://'') handle_url"
    and "\<not> contains (lit ''xrpc/com.atproto.repo.getRecord'') handle_url"
    and "contains (lit ''bsky.app'') handle_url"
    and "re_search handle_url = Some (lit ''alice.example'', lit ''xyz'')"
    by (simp_all add: handle_url_def match_here_def is_space_def)
  from resolution_call_always_made [OF this, of resolving_world "[]"]
  show ?thesis by (simp add: resolving_world_def offline_def)
qed











section \<open>Properties of the fetch\<close>

lemma urls_distinct [simp]:
  "resolve_url \<noteq> posts_url" "resolve_url \<noteq> session_url" "posts_url \<noteq> session_url"
  "posts_url \<noteq> resolve_url"
  by (simp_all add: resolve_url_def posts_url_def session_url_def)

lemma is_lookup_requests [simp]:
  "is_lookup (Http (posts_request w uri tok) r)"
  "\<not> is_lookup (Http (resolve_request h) r)"
  "\<not> is_lookup (Http (session_request h p) r)"
  by (simp_all add: posts_request_def resolve_request_def session_request_def)

lemma is_login_requests [simp]:
  "\<not> is_login (Http (posts_request w uri tok) r)"
  "\<not> is_login (Http (resolve_request h) r)"
  "is_login (Http (session_request h p) r)"
  by (simp_all add: posts_request_def resolve_request_def session_request_def)

lemma credential_reads_only [simp]:
  assumes "list_all is_credential_read cs"
  shows "filter is_lookup cs = []" and "filter is_login cs = []"
    and "filter is_error_report cs = []" and "filter is_credential_read cs = cs"
    and "http_count cs = 0"
proof -
  have *: "\<not> is_lookup e \<and> \<not> is_login e \<and> \<not> is_error_report e \<and>
           (case e of Http rq r \<Rightarrow> False | _ \<Rightarrow> True)"
    if "is_credential_read e" for e
    using that by (cases e) simp_all
  with assms show "filter is_lookup cs = []" and "filter is_login cs = []"
    and "filter is_error_report cs = []" and "filter is_credential_read cs = cs"
    and "http_count cs = 0"
    by (induction cs) (auto simp: http_count_def split: event.splits)
qed

lemma get_post_eq:
  "get_post w uri tok log =
     (lookup_result (http w (http_count log) (posts_request w uri tok)),
      log @ [Http (posts_request w uri tok) (http w (http_count log) (posts_request w uri tok))])"
  by (simp add: get_post_def send_def lookup_result_def Let_def split: option.split)

lemma create_session_eq:
  "create_session w h p log =
     (login_result (http w (http_count log) (session_request h p)),
      log @ [Http (session_request h p) (http w (http_count log) (session_request h p))])"
  by (simp add: create_session_def send_def login_result_def Let_def split: option.split)

lemma lookup_result_401: "lookup_result r = Inl (HTTPError 401) \<longleftrightarrow> unauthorized r"
  by (cases r) (auto simp: lookup_result_def checked_json_def split: option.splits)

lemma checked_json_no_exit: "checked_json resp \<noteq> Inl (SystemExit n)"
  by (auto simp: checked_json_def split: option.splits)

lemma lookup_result_no_exit: "lookup_result r \<noteq> Inl (SystemExit n)"
  by (auto simp: lookup_result_def checked_json_no_exit split: option.splits)

lemma py_item_no_exit: "py_item j key \<noteq> Inl (SystemExit n)"
  by (cases j) (auto split: option.splits)

lemma py_get_no_exit: "py_get j key d \<noteq> Inl (SystemExit n)"
  by (cases j) auto

lemma login_result_no_exit: "login_result r \<noteq> Inl (SystemExit n)"
  by (auto simp: login_result_def access_jwt_def checked_json_no_exit py_item_no_exit
      split: option.splits sum.splits)

lemma env_or_ask_input:
  assumes "env_or_ask w name (input_line w prompt) log = (c, log')"
  shows "\<exists>cs. log' = log @ cs \<and> list_all is_credential_read cs \<and> cs \<noteq> [] \<and>
              (case c of Inl e \<Rightarrow> e = EOFError \<and> list_ex prompt_failed cs | Inr v \<Rightarrow> True)"
  using assms
  by (auto simp: env_or_ask_def input_line_def Let_def split: option.splits if_splits)

lemma env_or_ask_getpass:
  assumes "env_or_ask w name (getpass w prompt) log = (c, log')"
  shows "\<exists>cs. log' = log @ cs \<and> list_all is_credential_read cs \<and> cs \<noteq> [] \<and>
              (case c of Inl e \<Rightarrow> e = EOFError \<and> list_ex prompt_failed cs | Inr v \<Rightarrow> True)"
  using assms
  by (auto simp: env_or_ask_def getpass_def Let_def split: option.splits if_splits)

lemma get_credentials_trace:
  assumes "get_credentials w log = (c, log')"
  shows "\<exists>cs. log' = log @ cs \<and> list_all is_credential_read cs \<and> cs \<noteq> [] \<and>
              (case c of Inl e \<Rightarrow> e = EOFError \<and> list_ex prompt_failed cs | Inr v \<Rightarrow> True)"
proof (cases "env_or_ask w (lit ''BLUESKY_HANDLE'') (input_line w (lit ''Bluesky handle: '')) log")
  case first: (Pair c1 log1)
  from env_or_ask_input [OF first] obtain cs1 where
    cs1: "log1 = log @ cs1" "list_all is_credential_read cs1" "cs1 \<noteq> []"
      "case c1 of Inl e \<Rightarrow> e = EOFError \<and> list_ex prompt_failed cs1 | Inr v \<Rightarrow> True"
    by blast
  show ?thesis
  proof (cases c1)
    case (Inl e)
    with first assms cs1 show ?thesis
      by (auto simp: get_credentials_def)
  next
    case (Inr handle)
    show ?thesis
    proof (cases "env_or_ask w (lit ''BLUESKY_APP_PASSWORD'') (getpass w (lit ''App password: '')) log1")
      case second: (Pair c2 log2)
      from env_or_ask_getpass [OF second] obtain cs2 where
        cs2: "log2 = log1 @ cs2" "list_all is_credential_read cs2" "cs2 \<noteq> []"
          "case c2 of Inl e \<Rightarrow> e = EOFError \<and> list_ex prompt_failed cs2 | Inr v \<Rightarrow> True"
        by blast
      have "log' = log @ (cs1 @ cs2) \<and> c = (case c2 of Inl e \<Rightarrow> Inl e | Inr p \<Rightarrow> Inr (handle, p))"
        using assms first Inr second cs1(1) cs2(1)
        by (auto simp: get_credentials_def split: sum.splits)
      with cs1 cs2 show ?thesis
        by (intro exI [of _ "cs1 @ cs2"]) (auto split: sum.splits)
    qed
  qed
qed

lemma fetch_cases [consumes 1, case_names direct no_credentials login_failed retried]:
  assumes "fetch w uri log = (r, log')"
  obtains
    r1 where "\<not> unauthorized r1" and "r = lookup_result r1"
      and "log' = log @ [Print ([128275] @ lit '' Attempting unauthenticated request...''),
                         Http (posts_request w uri JNull) r1]"
  | r1 cs where "unauthorized r1" and "r = Inl EOFError"
      and "list_all is_credential_read cs" and "list_ex prompt_failed cs"
      and "log' = log @ [Print ([128275] @ lit '' Attempting unauthenticated request...''),
                         Http (posts_request w uri JNull) r1,
                         Print ([128272] @ lit '' Authentication required. Logging in...'')] @ cs"
  | r1 cs h p r2 e where "unauthorized r1" and "r = Inl e" and "login_result r2 = Inl e"
      and "list_all is_credential_read cs"
      and "log' = log @ [Print ([128275] @ lit '' Attempting unauthenticated request...''),
                         Http (posts_request w uri JNull) r1,
                         Print ([128272] @ lit '' Authentication required. Logging in...'')] @ cs @
                        [Http (session_request h p) r2]"
  | r1 cs h p r2 tok r3 where "unauthorized r1" and "login_result r2 = Inr tok"
      and "r = lookup_result r3" and "list_all is_credential_read cs"
      and "log' = log @ [Print ([128275] @ lit '' Attempting unauthenticated request...''),
                         Http (posts_request w uri JNull) r1,
                         Print ([128272] @ lit '' Authentication required. Logging in...'')] @ cs @
                        [Http (session_request h p) r2,
                         Print ([9989] @ lit '' Authentication successful!''), Print [],
                         Http (posts_request w uri tok) r3]"
proof -
  let ?p1 = "Print ([128275] @ lit '' Attempting unauthenticated request...'')"
  let ?p2 = "Print ([128272] @ lit '' Authentication required. Logging in...'')"
  define r1 where "r1 = http w (http_count log) (posts_request w uri JNull)"
  let ?log1 = "log @ [?p1, Http (posts_request w uri JNull) r1]"
  have first: "get_post w uri JNull (log @ [?p1]) = (lookup_result r1, ?log1)"
    by (simp add: get_post_eq r1_def)
  show thesis
  proof (cases "unauthorized r1")
    case False
    then have "lookup_result r1 \<noteq> Inl (HTTPError 401)"
      by (simp add: lookup_result_401)
    with assms first have "r = lookup_result r1 \<and> log' = ?log1"
      unfolding fetch_def by (auto split: sum.splits)
    with False show thesis by (intro that(1)) auto
  next
    case True
    then have 401: "lookup_result r1 = Inl (HTTPError 401)"
      by (simp add: lookup_result_401)
    obtain c log2 where creds: "get_credentials w (?log1 @ [?p2]) = (c, log2)"
      by (cases "get_credentials w (?log1 @ [?p2])")
    from get_credentials_trace [OF creds] obtain cs where
      cs: "log2 = ?log1 @ [?p2] @ cs" "list_all is_credential_read cs"
        "case c of Inl e \<Rightarrow> e = EOFError \<and> list_ex prompt_failed cs | Inr v \<Rightarrow> True"
      by auto
    show thesis
    proof (cases c)
      case (Inl e)
      with assms first 401 creds have "r = Inl e \<and> log' = log2"
        unfolding fetch_def by simp
      with Inl cs True show thesis by (intro that(2) [of r1 cs]) auto
    next
      case (Inr hp)
      obtain h p where hp: "hp = (h, p)" by (cases hp)
      define r2 where "r2 = http w (http_count log2) (session_request h p)"
      let ?log3 = "log2 @ [Http (session_request h p) r2]"
      have login: "create_session w h p log2 = (login_result r2, ?log3)"
        by (simp add: create_session_eq r2_def)
      show thesis
      proof (cases "login_result r2")
        case failed: (Inl e)
        with assms first 401 creds Inr hp login have "r = Inl e \<and> log' = ?log3"
          unfolding fetch_def by simp
        with failed cs True show thesis by (intro that(3) [of r1 e r2 cs h p]) auto
      next
        case token: (Inr tok)
        define r3 where "r3 = http w (http_count
            (?log3 @ [Print ([9989] @ lit '' Authentication successful!''), Print []]))
            (posts_request w uri tok)"
        have "r = lookup_result r3 \<and>
              log' = ?log3 @ [Print ([9989] @ lit '' Authentication successful!''), Print [],
                             Http (posts_request w uri tok) r3]"
          using assms first 401 creds Inr hp login token
          unfolding fetch_def by (simp add: get_post_eq r3_def)
        with token cs True show thesis by (intro that(4) [of r1 r2 tok r3 cs h p]) auto
      qed
    qed
  qed
qed

section \<open>Properties of a whole run\<close>

lemma prints_only [simp]:
  assumes "list_all is_print es"
  shows "filter is_lookup es = []" and "filter is_login es = []"
    and "filter is_error_report es = []" and "filter is_credential_read es = []"
    and "http_count es = 0"
proof -
  have *: "\<not> is_lookup e \<and> \<not> is_login e \<and> \<not> is_error_report e \<and> \<not> is_credential_read e \<and>
           (case e of Http rq r \<Rightarrow> False | _ \<Rightarrow> True)"
    if "is_print e" for e
    using that by (cases e) simp_all
  with assms show "filter is_lookup es = []" and "filter is_login es = []"
    and "filter is_error_report es = []" and "filter is_credential_read es = []"
    and "http_count es = 0"
    by (induction es) (auto simp: http_count_def split: event.splits)
qed

lemma parse_api_url_no_exit: "parse_api_url w s \<noteq> Inl (SystemExit n)"
  by (auto simp: parse_api_url_def first_param_def split: sum.splits option.splits list.splits)

lemma parse_input_trace:
  assumes "parse_input w input_str log = (r, log')"
  shows "r \<noteq> Inl (SystemExit n) \<and>
         (\<exists>es. log' = log @ es \<and> filter is_lookup es = [] \<and> filter is_login es = [] \<and>
               filter is_credential_read es = [] \<and> filter is_error_report es = [])"
proof -
  have "r' \<noteq> Inl (SystemExit n) \<and>
        l' = log @ [Print ([128269] @ lit '' Resolving handle '' @ h @ lit ''...''),
                    Http (resolve_request h) (http w (http_count log) (resolve_request h))]"
    if "resolve_handle w h k log = (r', l')" for h k r' l'
    using that
    by (auto simp: resolve_handle_def send_def Let_def checked_json_no_exit py_get_no_exit
        split: option.splits sum.splits if_splits)
  note resolved = this
  consider "log' = log" and "r \<noteq> Inl (SystemExit n)"
    | h k where "resolve_handle w h k log = (r, log')"
    using assms
    by (auto simp: parse_input_def parse_api_url_no_exit split: if_splits option.splits)
  then show ?thesis
  proof cases
    case 1
    then show ?thesis by simp
  next
    case 2
    from resolved [OF this] show ?thesis by simp
  qed
qed

lemma label_lines_trace:
  "label_lines w ls log = (r, log') \<Longrightarrow>
     r \<noteq> Inl (SystemExit n) \<and> (\<exists>es. log' = log @ es \<and> list_all is_print es)"
proof (induction ls arbitrary: log)
  case Nil
  then show ?case by auto
next
  case (Cons label rest)
  show ?case
  proof (cases "py_get label (lit ''val'') (JStr (lit ''unknown''))")
    case (Inl e)
    with Cons.prems show ?thesis using py_get_no_exit [of label] by auto
  next
    case val: (Inr val)
    show ?thesis
    proof (cases "py_get label (lit ''src'') (JStr (lit ''unknown''))")
      case (Inl e)
      with Cons.prems val show ?thesis using py_get_no_exit [of label] by auto
    next
      case (Inr src)
      with Cons.prems val Cons.IH
        [of "log @ [Print (lit ''  '' @ [8226] @ lit '' '' @ fstr w val @ lit '' (from: '' @
                                fstr w src @ lit '')'')]"]
      show ?thesis by auto
    qed
  qed
qed

lemma show_labels_trace:
  assumes "show_labels w labels log = (r, log')"
  shows "r \<noteq> Inl (SystemExit n) \<and> (\<exists>es. log' = log @ es \<and> list_all is_print es)"
proof (cases "truthy labels")
  case False
  with assms show ?thesis by (auto simp: show_labels_def)
next
  case True
  show ?thesis
  proof (cases "py_elems labels")
    case (Inl e)
    then have "e = TypeError" by (cases labels) auto
    with assms True Inl show ?thesis by (auto simp: show_labels_def)
  next
    case (Inr ls)
    with assms True label_lines_trace
      [of w ls "log @ [Print ([9888, 65039] @ lit ''  Found '' @
                              fstr w (JNum (int (length ls))) @ lit '' label(s):''),
                       Print []]" r log' n]
    show ?thesis by (auto simp: show_labels_def)
  qed
qed

lemma py_slice100_no_exit: "py_slice100 j \<noteq> Inl (SystemExit n)"
  by (cases j) auto

lemma py_first_no_exit: "py_first j \<noteq> Inl (SystemExit n)"
  by (cases j rule: py_first.cases) auto

lemma author_of_no_exit: "author_of post \<noteq> Inl (SystemExit n)"
  by (auto simp: author_of_def py_item_no_exit split: sum.splits)

lemma text_of_no_exit: "text_of post \<noteq> Inl (SystemExit n)"
  by (auto simp: text_of_def py_item_no_exit py_get_no_exit py_slice100_no_exit split: sum.splits)

lemma show_post_trace:
  assumes "show_post w post log = (r, log')"
  shows "r \<noteq> Inl (SystemExit n) \<and> (\<exists>es. log' = log @ es \<and> list_all is_print es)"
proof (cases "py_get post (lit ''labels'') (JArr [])")
  case (Inl e)
  with assms show ?thesis using py_get_no_exit [of post] by (auto simp: show_post_def)
next
  case labels: (Inr labels)
  show ?thesis
  proof (cases "author_of post")
    case (Inl e)
    with assms labels show ?thesis using author_of_no_exit [of post]
      by (auto simp: show_post_def)
  next
    case author: (Inr author)
    show ?thesis
    proof (cases "text_of post")
      case (Inl e)
      with assms labels author show ?thesis using text_of_no_exit [of post]
        by (auto simp: show_post_def)
    next
      case body: (Inr body)
      let ?log2 = "log @ [Print ([9989] @ lit '' Post found''), Print [],
                          Print ([128100] @ lit '' Author: '' @ fstr w author),
                          Print ([128221] @ lit '' Text: '' @ fstr w body @ lit ''...''),
                          Print []]"
      obtain r3 log3 where sl: "show_labels w labels ?log2 = (r3, log3)"
        by (cases "show_labels w labels ?log2")
      from show_labels_trace [OF sl, of n] obtain es where
        "r3 \<noteq> Inl (SystemExit n)" "log3 = ?log2 @ es" "list_all is_print es"
        by auto
      with assms labels author body sl show ?thesis
        by (auto simp: show_post_def split: sum.splits)
    qed
  qed
qed

text \<open>The report either shows the first post or stops the process at an empty list.\<close>

lemma report_cases [consumes 1, case_names not_found shown]:
  assumes "report w data log = (r, log')"
  obtains
    posts where "py_get data (lit ''posts'') (JArr []) = Inr posts" and "\<not> truthy posts"
      and "r = Inl (SystemExit 1)" and "log' = log @ [Print ([10060] @ lit '' Post not found'')]"
  | es where "\<forall>posts. py_get data (lit ''posts'') (JArr []) = Inr posts \<longrightarrow> truthy posts"
      and "\<forall>n. r \<noteq> Inl (SystemExit n)" and "log' = log @ es" and "list_all is_print es"
proof (cases "py_get data (lit ''posts'') (JArr [])")
  case (Inl e)
  with assms have "r = Inl e" "log' = log @ []"
    by (auto simp: report_def)
  with Inl show thesis using py_get_no_exit [of data] by (intro that(2) [of "[]"]) auto
next
  case (Inr posts)
  show thesis
  proof (cases "truthy posts")
    case False
    with assms Inr show thesis by (intro that(1) [of posts]) (auto simp: report_def)
  next
    case True
    show thesis
    proof (cases "py_first posts")
      case (Inl e)
      with assms Inr True have "r = Inl e" "log' = log @ []"
        by (auto simp: report_def)
      with Inl Inr True show thesis using py_first_no_exit [of posts]
        by (intro that(2) [of "[]"]) auto
    next
      case post: (Inr post)
      with assms Inr True have sp: "show_post w post log = (r, log')"
        by (auto simp: report_def)
      have "\<forall>n. r \<noteq> Inl (SystemExit n)"
        using show_post_trace [OF sp] by blast
      moreover obtain es where "log' = log @ es" and "list_all is_print es"
        using show_post_trace [OF sp, of 0] by blast
      ultimately show thesis
        using Inr True by (intro that(2) [of es]) auto
    qed
  qed
qed

lemma finish_exception:
  "\<forall>n. e \<noteq> SystemExit n \<Longrightarrow> finish (Inl e, log) = (1, log @ [PrintError e])"
  by (cases e) auto

lemma usage_quiet [simp]:
  "filter is_lookup usage = []" "filter is_login usage = []"
  "filter is_credential_read usage = []"
  by (simp_all add: usage_def)

lemma no_failed_prompt:
  "filter is_credential_read es = [] \<Longrightarrow> \<not> list_ex prompt_failed es"
proof (induction es)
  case Nil
  then show ?case by simp
next
  case (Cons e es)
  then show ?case by (cases e rule: prompt_failed.cases) (auto split: if_splits)
qed

lemma finish_trace:
  assumes "finish (r, l) = (st, log)"
  shows "\<exists>es. log = l @ es \<and> filter is_lookup es = [] \<and> filter is_login es = [] \<and>
              filter is_credential_read es = []"
proof (cases r)
  case (Inl e)
  with assms show ?thesis by (cases e) auto
next
  case (Inr u)
  with assms show ?thesis by auto
qed

lemma main_cases [consumes 1, case_names usage parse_error fetched]:
  assumes "main w = (st, log)"
  obtains "log = usage"
  | e log0 where "parse_input w (argv w ! 1) [] = (Inl e, log0)" and "log = log0 @ [PrintError e]"
  | uri log0 r log1 where "parse_input w (argv w ! 1) [] = (Inr uri, log0)"
      and "fetch w uri (log0 @ [Print ([128205] @ lit '' Checking labels for: '' @ uri), Print []])
             = (r, log1)"
      and "(st, log) = finish (case r of Inl e \<Rightarrow> (Inl e, log1) | Inr data \<Rightarrow> report w data log1)"
proof (cases "length (argv w) < 2")
  case True
  with assms show thesis by (intro that(1)) (simp add: main_def)
next
  case False
  with assms have fin: "(st, log) = finish (run w (argv w ! 1))"
    by (simp add: main_def)
  obtain r0 log0 where p: "parse_input w (argv w ! 1) [] = (r0, log0)"
    by (cases "parse_input w (argv w ! 1) []")
  show thesis
  proof (cases r0)
    case (Inl e)
    from parse_input_trace [OF p] Inl have "\<forall>n. e \<noteq> SystemExit n" by blast
    with fin p Inl have "log = log0 @ [PrintError e]"
      by (simp add: run_def finish_exception)
    with p Inl show thesis by (intro that(2)) auto
  next
    case (Inr uri)
    obtain r log1 where
      f: "fetch w uri (log0 @ [Print ([128205] @ lit '' Checking labels for: '' @ uri), Print []])
            = (r, log1)"
      by (cases "fetch w uri (log0 @ [Print ([128205] @ lit '' Checking labels for: '' @ uri), Print []])")
    with fin p Inr
    have "(st, log) = finish (case r of Inl e \<Rightarrow> (Inl e, log1) | Inr data \<Rightarrow> report w data log1)"
      by (simp add: run_def split: sum.splits)
    with p Inr f show thesis by (intro that(3)) auto
  qed
qed

text \<open>
  A run that reaches the post lookup: the trace before the fetch and the trace after it
  hold no lookup, no login and no read of credentials.
\<close>

lemma run_with_lookup:
  assumes "main w = (st, log)" and "filter is_lookup log \<noteq> []"
  obtains uri log0 r log1 es where "fetch w uri log0 = (r, log1)"
    and "(st, log) = finish (case r of Inl e \<Rightarrow> (Inl e, log1) | Inr data \<Rightarrow> report w data log1)"
    and "log = log1 @ es"
    and "filter is_lookup log0 = []" and "filter is_login log0 = []"
    and "filter is_credential_read log0 = []" and "filter is_error_report log0 = []"
    and "filter is_lookup es = []" and "filter is_login es = []"
    and "filter is_credential_read es = []"
  using assms(1)
proof (cases rule: main_cases)
  case usage
  with assms(2) show ?thesis by simp
next
  case (parse_error e log0)
  from parse_input_trace [OF parse_error(1)] parse_error(2) assms(2)
  show ?thesis by auto
next
  case (fetched uri log0 r log1)
  let ?log0 = "log0 @ [Print ([128205] @ lit '' Checking labels for: '' @ uri), Print []]"
  from parse_input_trace [OF fetched(1)]
  have quiet: "filter is_lookup ?log0 = []" "filter is_login ?log0 = []"
    "filter is_credential_read ?log0 = []" "filter is_error_report ?log0 = []"
    by auto
  obtain r' log2 where
    tail: "(case r of Inl e \<Rightarrow> (Inl e, log1) | Inr data \<Rightarrow> report w data log1) = (r', log2)"
    by (cases "case r of Inl e \<Rightarrow> (Inl e, log1) | Inr data \<Rightarrow> report w data log1")
  have "\<exists>es. log2 = log1 @ es \<and> list_all is_print es"
  proof (cases r)
    case (Inl e)
    with tail show ?thesis by auto
  next
    case (Inr data)
    with tail have "report w data log1 = (r', log2)" by simp
    then show ?thesis by (cases rule: report_cases) auto
  qed
  then obtain es where es: "log2 = log1 @ es" "list_all is_print es" by blast
  from fetched(3) tail have "finish (r', log2) = (st, log)" by simp
  from finish_trace [OF this] obtain es' where
    es': "log = log2 @ es'" "filter is_lookup es' = []" "filter is_login es' = []"
      "filter is_credential_read es' = []"
    by blast
  from es es' have "log = log1 @ (es @ es')" "filter is_lookup (es @ es') = []"
    "filter is_login (es @ es') = []" "filter is_credential_read (es @ es') = []"
    by simp_all
  with fetched(2,3) quiet show ?thesis by (intro that [of uri ?log0 r log1 "es @ es'"])
qed

section \<open>The fetch flow of a run\<close>

lemmas run_defs =
  main_def run_def parse_input_def fetch_def get_post_def send_def posts_request_def
  get_credentials_def env_or_ask_def input_line_def getpass_def create_session_def
  session_request_def access_jwt_def checked_json_def report_def show_post_def
  author_of_def text_of_def show_labels_def fstr_def lookup_result_def login_result_def
  offline_def ok_def denied_def post_uri_def payload_def

text \<open>
  C2. In a run whose first post lookup is answered by anything but a 401 response (a
  success, another error status, a transport failure), there is no login call, no
  credential is read from the environment or asked for, and no second lookup is made.
\<close>

theorem no_login_without_401:
  assumes "main w = (status, log)"
    and "filter is_lookup log = Http rq r # retries"
    and "\<not> unauthorized r"
  shows "filter is_login log = [] \<and> filter is_credential_read log = [] \<and> retries = []"
proof -
  from assms(2) have "filter is_lookup log \<noteq> []" by simp
  with assms(1) obtain uri log0 r' log1 es where
    f: "fetch w uri log0 = (r', log1)" and log: "log = log1 @ es"
    and quiet: "filter is_lookup log0 = []" "filter is_login log0 = []"
      "filter is_credential_read log0 = []"
      "filter is_lookup es = []" "filter is_login es = []" "filter is_credential_read es = []"
    by (rule run_with_lookup)
  from f show ?thesis
  proof (cases rule: fetch_cases)
    case (direct r1)
    with log quiet assms(2) show ?thesis by auto
  next
    case (no_credentials r1 cs)
    with log quiet assms(2,3) show ?thesis by auto
  next
    case (login_failed r1 cs h p r2 e)
    with log quiet assms(2,3) show ?thesis by auto
  next
    case (retried r1 cs h p r2 tok r3)
    with log quiet assms(2,3) show ?thesis by auto
  qed
qed

theorem no_login_without_401_witness:
  "filter is_lookup (snd (main open_world)) =
     [Http (GET posts_url [(lit ''uris'', post_uri)] []) (ok (payload [sample_post]))] \<and>
   \<not> unauthorized (ok (payload [sample_post])) \<and>
   filter is_login (snd (main open_world)) = [] \<and>
   filter is_credential_read (snd (main open_world)) = []"
proof -
  have run: "main open_world = (fst (main open_world), snd (main open_world))"
    by simp
  have lookups: "filter is_lookup (snd (main open_world)) =
     [Http (GET posts_url [(lit ''uris'', post_uri)] []) (ok (payload [sample_post]))]"
    by (simp add: run_defs open_world_def sample_post_def)
  have ok: "\<not> unauthorized (ok (payload [sample_post]))"
    by (simp add: ok_def)
  from no_login_without_401 [OF run lookups ok] lookups ok show ?thesis by simp
qed

text \<open>
  C1, as stated, fails: when the login itself is rejected there is one login call and
  no retried lookup at all.
\<close>

theorem retry_counterexample:
  "filter is_lookup (snd (main rejecting_world)) =
     [Http (GET posts_url [(lit ''uris'', post_uri)] []) denied] \<and>
   unauthorized denied \<and>
   length (filter is_login (snd (main rejecting_world))) = 1"
  by (simp add: run_defs rejecting_world_def)

text \<open>
  C1, amended. In a run whose first post lookup is answered by 401 there is never more
  than one login call and never more than one further lookup, so a retried lookup that
  fails is not repeated. The login call is made exactly once unless a credential prompt
  fails. Without a login call, or when the login call fails, there is no further lookup.
  When the login call returns a token, the lookup is retried exactly once, for the same
  reference, and a token that is not empty travels in the header
  \<open>Authorization: Bearer <token>\<close>.
\<close>

theorem login_and_retry_once:
  assumes "main w = (status, log)"
    and "filter is_lookup log = Http rq r # retries"
    and "unauthorized r"
  shows "length (filter is_login log) \<le> 1 \<and> length retries \<le> 1 \<and>
         (\<not> list_ex prompt_failed log \<longrightarrow> length (filter is_login log) = 1) \<and>
         (filter is_login log = [] \<longrightarrow> retries = []) \<and>
         (\<forall>rq2 r2 e. filter is_login log = [Http rq2 r2] \<and> login_result r2 = Inl e \<longrightarrow>
            retries = []) \<and>
         (\<forall>rq2 r2 tok. filter is_login log = [Http rq2 r2] \<and> login_result r2 = Inr tok \<longrightarrow>
            (\<exists>uri r3. rq = GET posts_url [(lit ''uris'', uri)] [] \<and>
               retries = [Http (posts_request w uri tok) r3] \<and>
               (truthy tok \<longrightarrow>
                  retries = [Http (GET posts_url [(lit ''uris'', uri)]
                                  [(lit ''Authorization'', lit ''Bearer '' @ fstr w tok)]) r3])))"
proof -
  from assms(2) have "filter is_lookup log \<noteq> []" by simp
  with assms(1) obtain uri log0 r' log1 es where
    f: "fetch w uri log0 = (r', log1)" and log: "log = log1 @ es"
    and quiet: "filter is_lookup log0 = []" "filter is_login log0 = []"
      "filter is_credential_read log0 = []"
      "filter is_lookup es = []" "filter is_login es = []" "filter is_credential_read es = []"
    by (rule run_with_lookup)
  from f show ?thesis
  proof (cases rule: fetch_cases)
    case (direct r1)
    with log quiet assms(2,3) show ?thesis by auto
  next
    case (no_credentials r1 cs)
    with log quiet assms(2) show ?thesis by auto
  next
    case (login_failed r1 cs h p r2 e)
    with log quiet assms(2) show ?thesis by auto
  next
    case (retried r1 cs h p r2 tok r3)
    with log quiet assms(2) show ?thesis by (auto simp: posts_request_def)
  qed
qed

theorem login_and_retry_once_witness:
  "filter is_lookup (snd (main login_world)) =
     [Http (GET posts_url [(lit ''uris'', post_uri)] []) denied,
      Http (GET posts_url [(lit ''uris'', post_uri)] [(lit ''Authorization'', lit ''Bearer jwt'')])
           (ok (payload [sample_post]))] \<and>
   filter is_login (snd (main login_world)) =
     [Http (POST session_url [(lit ''identifier'', lit ''alice.example''),
                              (lit ''password'', lit ''secret'')])
           (ok (JObj [(lit ''accessJwt'', JStr (lit ''jwt''))]))] \<and>
   length (filter is_login (snd (main login_world))) \<le> 1"
proof -
  have run: "main login_world = (fst (main login_world), snd (main login_world))"
    by simp
  have lookups: "filter is_lookup (snd (main login_world)) =
     [Http (GET posts_url [(lit ''uris'', post_uri)] []) denied,
      Http (GET posts_url [(lit ''uris'', post_uri)] [(lit ''Authorization'', lit ''Bearer jwt'')])
           (ok (payload [sample_post]))]"
    by (simp add: run_defs login_world_def sample_post_def)
  have logins: "filter is_login (snd (main login_world)) =
     [Http (POST session_url [(lit ''identifier'', lit ''alice.example''),
                              (lit ''password'', lit ''secret'')])
           (ok (JObj [(lit ''accessJwt'', JStr (lit ''jwt''))]))]"
    by (simp add: run_defs login_world_def sample_post_def)
  have denied: "unauthorized denied"
    by (simp add: denied_def)
  from login_and_retry_once [OF run lookups denied]
  have "length (filter is_login (snd (main login_world))) \<le> 1" by blast
  with lookups logins show ?thesis by simp
qed

text \<open>
  C3. In a run whose first post lookup is answered by 401 and whose login call then
  fails (no response, an error status, or a body without \<open>accessJwt\<close>), the process exits
  with status 1 and the first lookup remains the only one.
\<close>

theorem login_failure_is_fatal:
  assumes "main w = (status, log)"
    and "filter is_lookup log = Http rq r # retries"
    and "unauthorized r"
    and "filter is_login log = [Http rq2 r2]"
    and "login_result r2 = Inl e"
  shows "status = 1 \<and> retries = []"
proof -
  from assms(2) have "filter is_lookup log \<noteq> []" by simp
  with assms(1) obtain uri log0 r' log1 es where
    f: "fetch w uri log0 = (r', log1)" and log: "log = log1 @ es"
    and fin: "(status, log) =
        finish (case r' of Inl e \<Rightarrow> (Inl e, log1) | Inr data \<Rightarrow> report w data log1)"
    and quiet: "filter is_lookup log0 = []" "filter is_login log0 = []"
      "filter is_credential_read log0 = []"
      "filter is_lookup es = []" "filter is_login es = []" "filter is_credential_read es = []"
    by (rule run_with_lookup)
  from f show ?thesis
  proof (cases rule: fetch_cases)
    case (direct r1)
    with log quiet assms(2,3) show ?thesis by auto
  next
    case (no_credentials r1 cs)
    with log quiet assms(4) show ?thesis by auto
  next
    case (login_failed r1 cs h p r2' e')
    with log quiet assms(2) have "retries = []" by auto
    moreover have "\<forall>n. e' \<noteq> SystemExit n"
      using login_failed(3) login_result_no_exit [of r2'] by auto
    with fin login_failed(2) have "status = 1"
      by (simp add: finish_exception)
    ultimately show ?thesis by simp
  next
    case (retried r1 cs h p r2' tok r3)
    with log quiet assms(4,5) show ?thesis by auto
  qed
qed

theorem login_failure_is_fatal_witness:
  "main rejecting_world =
     (1, [Print ([128205] @ lit '' Checking labels for: '' @ post_uri), Print [],
          Print ([128275] @ lit '' Attempting unauthenticated request...''),
          Http (GET posts_url [(lit ''uris'', post_uri)] []) denied,
          Print ([128272] @ lit '' Authentication required. Logging in...''),
          EnvGet (lit ''BLUESKY_HANDLE'') (Some (lit ''secret'')),
          EnvGet (lit ''BLUESKY_APP_PASSWORD'') (Some (lit ''secret'')),
          Http (POST session_url [(lit ''identifier'', lit ''secret''),
                                  (lit ''password'', lit ''secret'')]) denied,
          PrintError (HTTPError 401)])"
proof -
  let ?log = "[Print ([128205] @ lit '' Checking labels for: '' @ post_uri), Print [],
          Print ([128275] @ lit '' Attempting unauthenticated request...''),
          Http (GET posts_url [(lit ''uris'', post_uri)] []) denied,
          Print ([128272] @ lit '' Authentication required. Logging in...''),
          EnvGet (lit ''BLUESKY_HANDLE'') (Some (lit ''secret'')),
          EnvGet (lit ''BLUESKY_APP_PASSWORD'') (Some (lit ''secret'')),
          Http (POST session_url [(lit ''identifier'', lit ''secret''),
                                  (lit ''password'', lit ''secret'')]) denied,
          PrintError (HTTPError 401)]"
  have log: "snd (main rejecting_world) = ?log"
    by (simp add: run_defs rejecting_world_def)
  then have run: "main rejecting_world = (fst (main rejecting_world), ?log)"
    by (metis prod.collapse)
  have lookups: "filter is_lookup ?log = [Http (GET posts_url [(lit ''uris'', post_uri)] []) denied]"
    by simp
  have logins: "filter is_login ?log =
      [Http (POST session_url [(lit ''identifier'', lit ''secret''),
                               (lit ''password'', lit ''secret'')]) denied]"
    by simp
  have denied: "unauthorized denied" and "login_result denied = Inl (HTTPError 401)"
    by (simp_all add: denied_def login_result_def access_jwt_def checked_json_def)
  from login_failure_is_fatal [OF run lookups denied(1) logins this(2)]
  have "fst (main rejecting_world) = 1" by simp
  with run show ?thesis by simp
qed

section \<open>The report of a run\<close>

text \<open>
  A run whose last post lookup returned a payload ends as the report on that payload
  ends, and nothing before the report is an error line.
\<close>

lemma successful_run:
  assumes "main w = (status, log)"
    and "filter is_lookup log \<noteq> []"
    and "last (filter is_lookup log) = Http rq r"
    and "lookup_result r = Inr data"
  obtains log1 where "(status, log) = finish (report w data log1)"
    and "filter is_error_report log1 = []"
proof -
  from assms(1,2) obtain uri log0 r' log1 es where
    f: "fetch w uri log0 = (r', log1)" and log: "log = log1 @ es"
    and fin: "(status, log) =
        finish (case r' of Inl e \<Rightarrow> (Inl e, log1) | Inr data \<Rightarrow> report w data log1)"
    and quiet: "filter is_lookup log0 = []" "filter is_error_report log0 = []"
      "filter is_lookup es = []"
    by (rule run_with_lookup)
  from f show thesis
  proof (cases rule: fetch_cases)
    case (direct r1)
    with log quiet assms(3) have "r1 = r" by auto
    with direct assms(4) fin quiet show thesis by (intro that [of log1]) auto
  next
    case (no_credentials r1 cs)
    with log quiet assms(3) have "r1 = r" by auto
    with no_credentials(1) assms(4) show thesis by (simp flip: lookup_result_401)
  next
    case (login_failed r1 cs h p r2 e)
    with log quiet assms(3) have "r1 = r" by auto
    with login_failed(1) assms(4) show thesis by (simp flip: lookup_result_401)
  next
    case (retried r1 cs h p r2 tok r3)
    with log quiet assms(3) have "r3 = r" by auto
    with retried assms(4) fin quiet show thesis by (intro that [of log1]) auto
  qed
qed

text \<open>
  C8. In a run whose last post lookup returned a payload with an empty \<open>posts\<close> list
  (or none at all), the last line printed is the not-found line, the exit status is 1,
  and the error line of the top-level handler is never printed.
\<close>

theorem empty_posts_not_found:
  assumes "main w = (status, log)"
    and "filter is_lookup log \<noteq> []"
    and "last (filter is_lookup log) = Http rq r"
    and "lookup_result r = Inr data"
    and "py_get data (lit ''posts'') (JArr []) = Inr (JArr [])"
  shows "status = 1 \<and> last log = Print ([10060] @ lit '' Post not found'') \<and>
         filter is_error_report log = []"
proof -
  from assms(1-4) obtain log1 where "(status, log) = finish (report w data log1)"
    and "filter is_error_report log1 = []"
    by (rule successful_run)
  with assms(5) show ?thesis by (simp add: report_def)
qed

theorem empty_posts_not_found_witness:
  "main empty_world =
     (1, [Print ([128205] @ lit '' Checking labels for: '' @ post_uri), Print [],
          Print ([128275] @ lit '' Attempting unauthenticated request...''),
          Http (GET posts_url [(lit ''uris'', post_uri)] []) (ok (payload [])),
          Print ([10060] @ lit '' Post not found'')])"
proof -
  let ?log = "[Print ([128205] @ lit '' Checking labels for: '' @ post_uri), Print [],
          Print ([128275] @ lit '' Attempting unauthenticated request...''),
          Http (GET posts_url [(lit ''uris'', post_uri)] []) (ok (payload [])),
          Print ([10060] @ lit '' Post not found'')]"
  have "snd (main empty_world) = ?log"
    by (simp add: run_defs empty_world_def)
  then have run: "main empty_world = (fst (main empty_world), ?log)"
    by (metis prod.collapse)
  have "filter is_lookup ?log \<noteq> []"
    and "last (filter is_lookup ?log) = Http (GET posts_url [(lit ''uris'', post_uri)] []) (ok (payload []))"
    and "lookup_result (ok (payload [])) = Inr (payload [])"
    and "py_get (payload []) (lit ''posts'') (JArr []) = Inr (JArr [])"
    by (simp_all add: lookup_result_def ok_def checked_json_def payload_def)
  from empty_posts_not_found [OF run this]
  have "fst (main empty_world) = 1" by simp
  with run show ?thesis by simp
qed



text \<open>
  C10. Two payloads whose \<open>posts\<close> lists begin with the same post give the same report:
  the same lines, the same label data and the same outcome, whatever follows the first
  post in either list. So a run whose last post lookup returned the one ends, in exit
  status and trace, as the report on the other ends.
\<close>

theorem first_post_only:
  assumes "py_get data (lit ''posts'') (JArr []) = Inr (JArr (post # rest))"
    and "py_get data' (lit ''posts'') (JArr []) = Inr (JArr (post # rest'))"
  shows "report w data l = report w data' l \<and>
         (main w = (status, log) \<and> filter is_lookup log \<noteq> [] \<and>
          last (filter is_lookup log) = Http rq r \<and> lookup_result r = Inr data \<longrightarrow>
            (\<exists>log1. (status, log) = finish (report w data' log1)))"
proof (rule conjI)
  have same: "report w data l' = report w data' l'" for l'
    using assms by (simp add: report_def)
  then show "report w data l = report w data' l" .
  show "main w = (status, log) \<and> filter is_lookup log \<noteq> [] \<and>
          last (filter is_lookup log) = Http rq r \<and> lookup_result r = Inr data \<longrightarrow>
            (\<exists>log1. (status, log) = finish (report w data' log1))"
  proof (rule impI)
    assume "main w = (status, log) \<and> filter is_lookup log \<noteq> [] \<and>
          last (filter is_lookup log) = Http rq r \<and> lookup_result r = Inr data"
    then have "main w = (status, log)" and "filter is_lookup log \<noteq> []"
      and "last (filter is_lookup log) = Http rq r" and "lookup_result r = Inr data"
      by simp_all
    then obtain log1 where "(status, log) = finish (report w data log1)"
      by (rule successful_run)
    with same show "\<exists>log1. (status, log) = finish (report w data' log1)"
      by auto
  qed
qed

theorem first_post_only_witness:
  "report crowded_world (payload [sample_post, other_post]) [] =
     report crowded_world (payload [sample_post]) [] \<and>
   (\<exists>log1. main crowded_world = finish (report crowded_world (payload [sample_post]) log1)) \<and>
   main crowded_world =
     (0, [Print ([128205] @ lit '' Checking labels for: '' @ post_uri), Print [],
          Print ([128275] @ lit '' Attempting unauthenticated request...''),
          Http (GET posts_url [(lit ''uris'', post_uri)] [])
               (ok (payload [sample_post, other_post])),
          Print ([9989] @ lit '' Post found''), Print [],
          Print ([128100] @ lit '' Author: alice.example''),
          Print ([128221] @ lit '' Text: hello...''), Print [],
          Print ([9989] @ lit '' No labels found''), Print [],
          Print ([128202] @ lit '' Full label data:''), PrintJson (JArr [])])"
proof -
  let ?log = "[Print ([128205] @ lit '' Checking labels for: '' @ post_uri), Print [],
          Print ([128275] @ lit '' Attempting unauthenticated request...''),
          Http (GET posts_url [(lit ''uris'', post_uri)] [])
               (ok (payload [sample_post, other_post])),
          Print ([9989] @ lit '' Post found''), Print [],
          Print ([128100] @ lit '' Author: alice.example''),
          Print ([128221] @ lit '' Text: hello...''), Print [],
          Print ([9989] @ lit '' No labels found''), Print [],
          Print ([128202] @ lit '' Full label data:''), PrintJson (JArr [])]"
  have run: "main crowded_world = (0, ?log)"
    by (simp add: run_defs crowded_world_def sample_post_def other_post_def)
  have two: "py_get (payload [sample_post, other_post]) (lit ''posts'') (JArr []) =
          Inr (JArr (sample_post # [other_post]))"
    and one: "py_get (payload [sample_post]) (lit ''posts'') (JArr []) =
          Inr (JArr (sample_post # []))"
    by (simp_all add: payload_def)
  have "filter is_lookup ?log \<noteq> []"
    and "last (filter is_lookup ?log) =
           Http (GET posts_url [(lit ''uris'', post_uri)] [])
                (ok (payload [sample_post, other_post]))"
    and "lookup_result (ok (payload [sample_post, other_post])) =
           Inr (payload [sample_post, other_post])"
    by (simp_all add: lookup_result_def ok_def checked_json_def)
  with run first_post_only
    [OF two one, where w = crowded_world and l = "[]" and status = 0 and log = ?log
      and rq = "GET posts_url [(lit ''uris'', post_uri)] []"
      and r = "ok (payload [sample_post, other_post])"]
  have "report crowded_world (payload [sample_post, other_post]) [] =
          report crowded_world (payload [sample_post]) []"
    and "\<exists>log1. (0, ?log) = finish (report crowded_world (payload [sample_post]) log1)"
    by blast+
  with run show ?thesis by simp
qed

end
